theory Spec2Isabelle
  imports Main "HOL-Library.Multiset" "HOL-Library.Signed_Division"
begin

section \<open>Time: instants and durations\<close>

text \<open>
  A \<^verbatim>\<open>time.Time\<close> is modelled by the instant it denotes, in nanoseconds since the Unix
  epoch (the monotonic reading and the location do not take part in \<^verbatim>\<open>Before\<close>,
  \<^verbatim>\<open>After\<close>, \<^verbatim>\<open>Sub\<close> or \<^verbatim>\<open>IsZero\<close>). A \<^verbatim>\<open>time.Duration\<close> is a signed 64-bit count of
  nanoseconds: its arithmetic wraps, and \<^verbatim>\<open>Time.Sub\<close> saturates.
\<close>

type_synonym time = int
type_synonym duration = int

definition Nanosecond :: duration where "Nanosecond = 1"
definition Second :: duration where "Second = 1000000000"
definition Minute :: duration where "Minute = 60000000000"
definition Hour :: duration where "Hour = 3600000000000"

definition maxDuration :: duration where "maxDuration = 9223372036854775807"
definition minDuration :: duration where "minDuration = - 9223372036854775808"

definition wrap64 :: "int \<Rightarrow> int" where
  \<comment> \<open>the value of a signed 64-bit integer after an operation whose exact result is the argument\<close>
  "wrap64 x = (x + 9223372036854775808) mod 18446744073709551616 - 9223372036854775808"

definition zeroTime :: time where
  \<comment> \<open>January 1, year 1, 00:00:00 UTC, the zero value of \<^verbatim>\<open>time.Time\<close>\<close>
  "zeroTime = - 62135596800000000000"

definition IsZero :: "time \<Rightarrow> bool" where
  "IsZero t = (t = zeroTime)"

definition Before :: "time \<Rightarrow> time \<Rightarrow> bool" where
  "Before t u = (t < u)"

definition After :: "time \<Rightarrow> time \<Rightarrow> bool" where
  "After t u = (t > u)"

definition Sub :: "time \<Rightarrow> time \<Rightarrow> duration" where
  \<comment> \<open>\<^verbatim>\<open>t.Sub(u)\<close>: the difference, or the largest (smallest) duration when it does not fit\<close>
  "Sub t u =
     (let d = t - u
      in if d > maxDuration then maxDuration
         else if d < minDuration then minDuration
         else d)"

definition Add :: "time \<Rightarrow> duration \<Rightarrow> time" where
  "Add t d = t + d"

definition days_of_Hours :: "duration \<Rightarrow> int" where
  \<comment> \<open>\<^verbatim>\<open>int(d.Hours() / 24)\<close>: the conversion to int truncates toward zero. \<^verbatim>\<open>Hours\<close> is a
      float64; the quotient is taken exactly here, which agrees with the float64 computation
      on every duration shorter than 4096 hours and on which side of 0, 1 and 2 days any
      duration lies.\<close>
  "days_of_Hours d = d sdiv (24 * Hour)"

subsection \<open>The Gregorian calendar in UTC\<close>

text \<open>
  \<^verbatim>\<open>AddDate\<close> and \<^verbatim>\<open>Format\<close> belong to the standard library and depend on the location of
  the instant; the functions of the program take them as parameters. For evaluation at
  concrete instants this is their behaviour in UTC: days are counted from 1970-01-01, and
  a day past the end of a month carries into the next month, as \<^verbatim>\<open>time.Date\<close> normalises.
\<close>

definition nsPerDay :: int where "nsPerDay = 86400000000000"

definition days_from_civil :: "int \<Rightarrow> int \<Rightarrow> int \<Rightarrow> int" where
  "days_from_civil y m d =
     (let y' = (if m \<le> 2 then y - 1 else y);
          era = y' div 400;
          yoe = y' - era * 400;
          mp = (if m > 2 then m - 3 else m + 9);
          doy = (153 * mp + 2) div 5 + d - 1;
          doe = yoe * 365 + yoe div 4 - yoe div 100 + doy
      in era * 146097 + doe - 719468)"

definition civil_from_days :: "int \<Rightarrow> int \<times> int \<times> int" where
  "civil_from_days z0 =
     (let z = z0 + 719468;
          era = z div 146097;
          doe = z - era * 146097;
          yoe = (doe - doe div 1460 + doe div 36524 - doe div 146096) div 365;
          doy = doe - (365 * yoe + yoe div 4 - yoe div 100);
          mp = (5 * doy + 2) div 153;
          d = doy - (153 * mp + 2) div 5 + 1;
          m = (if mp < 10 then mp + 3 else mp - 9);
          y = yoe + era * 400
      in (if m \<le> 2 then y + 1 else y, m, d))"

definition AddDate_UTC :: "time \<Rightarrow> int \<Rightarrow> int \<Rightarrow> int \<Rightarrow> time" where
  "AddDate_UTC t years months days =
     (let day = t div nsPerDay;
          tod = t mod nsPerDay;
          (y, m, d) = civil_from_days day;
          mi = m - 1 + months;
          y' = y + years + mi div 12;
          m' = mi mod 12 + 1
      in (days_from_civil y' m' (d + days)) * nsPerDay + tod)"

section \<open>Strings\<close>

text \<open>
  A Go string is a sequence of bytes. The functions below are those of package
  \<^verbatim>\<open>strings\<close> on ASCII text: on bytes outside ASCII Go's \<^verbatim>\<open>ToLower\<close> and \<^verbatim>\<open>TrimSpace\<close>
  work on the decoded code points.
\<close>

definition is_digit :: "char \<Rightarrow> bool" where
  \<comment> \<open>\<^verbatim>\<open>'0' <= c && c <= '9'\<close>, which is also what \<^verbatim>\<open>\d\<close> matches\<close>
  "is_digit c = (48 \<le> (of_char c :: nat) \<and> (of_char c :: nat) \<le> 57)"

definition digit_val :: "char \<Rightarrow> int" where
  "digit_val c = int (of_char c) - 48"

definition lower_char :: "char \<Rightarrow> char" where
  "lower_char c =
     (case map_of (zip ''ABCDEFGHIJKLMNOPQRSTUVWXYZ'' ''abcdefghijklmnopqrstuvwxyz'') c of
        Some l \<Rightarrow> l
      | None \<Rightarrow> c)"

definition ToLower :: "string \<Rightarrow> string" where
  "ToLower s = map lower_char s"

definition is_space :: "char \<Rightarrow> bool" where
  \<comment> \<open>the ASCII white space of \<^verbatim>\<open>unicode.IsSpace\<close>: tab, line feed, vertical tab, form feed,
      carriage return, space\<close>
  "is_space c = (c \<in> set [CHR 0x09, CHR 0x0A, CHR 0x0B, CHR 0x0C, CHR 0x0D, CHR '' ''])"

definition TrimSpace :: "string \<Rightarrow> string" where
  "TrimSpace s = rev (dropWhile is_space (rev (dropWhile is_space s)))"

definition remove_char :: "char \<Rightarrow> string \<Rightarrow> string" where
  \<comment> \<open>\<^verbatim>\<open>strings.ReplaceAll(s, c, "")\<close> for a one-byte \<^verbatim>\<open>c\<close>\<close>
  "remove_char c s = filter (\<lambda>x. x \<noteq> c) s"

fun is_prefix :: "string \<Rightarrow> string \<Rightarrow> bool" where
  "is_prefix [] s = True"
| "is_prefix (p # ps) [] = False"
| "is_prefix (p # ps) (c # cs) = (if p = c then is_prefix ps cs else False)"

fun Replace1 :: "string \<Rightarrow> string \<Rightarrow> string \<Rightarrow> string" where
  \<comment> \<open>\<^verbatim>\<open>strings.Replace(s, old, new, 1)\<close>: the first occurrence of \<^verbatim>\<open>old\<close> is replaced\<close>
  "Replace1 [] old new = (if old = [] then new else [])"
| "Replace1 (c # cs) old new =
     (if is_prefix old (c # cs) then new @ drop (length old) (c # cs)
      else c # Replace1 cs old new)"

fun parse_digits :: "int \<Rightarrow> string \<Rightarrow> int" where
  "parse_digits acc [] = acc"
| "parse_digits acc (c # cs) = parse_digits (10 * acc + digit_val c) cs"

definition Atoi :: "string \<Rightarrow> int option" where
  \<comment> \<open>\<^verbatim>\<open>strconv.Atoi\<close> on a non-empty string of digits (all that the patterns below hand to
      it): the value, or an error when it is out of the range of a 64-bit int\<close>
  "Atoi s =
     (if s = [] then None
      else if list_all is_digit s
      then (let v = parse_digits 0 s in if v > 9223372036854775807 then None else Some v)
      else None)"

section \<open>The two patterns\<close>

text \<open>
  Both patterns of the parser have the shape \<^verbatim>\<open>(\d+)U\<close> with \<^verbatim>\<open>U\<close> one byte of a set
  that holds no digit: \<^verbatim>\<open>(\d+)M\<close> and \<^verbatim>\<open>(\d+)([mhdw])\<close>. A match of such a pattern is a
  maximal run of digits followed by a byte of the set, so the leftmost non-overlapping
  matches are found in one pass that remembers the run of digits read so far.
\<close>

fun scan_matches :: "(char \<Rightarrow> bool) \<Rightarrow> string \<Rightarrow> string \<Rightarrow> (string \<times> char) list" where
  "scan_matches U run [] = []"
| "scan_matches U run (c # cs) =
     (if is_digit c then scan_matches U (run @ [c]) cs
      else if run \<noteq> [] \<and> U c then (run, c) # scan_matches U [] cs
      else scan_matches U [] cs)"

fun scan_remove :: "(char \<Rightarrow> bool) \<Rightarrow> string \<Rightarrow> string \<Rightarrow> string" where
  "scan_remove U run [] = run"
| "scan_remove U run (c # cs) =
     (if is_digit c then scan_remove U (run @ [c]) cs
      else if run \<noteq> [] \<and> U c then scan_remove U [] cs
      else run @ c # scan_remove U [] cs)"

definition FindAllStringSubmatch :: "(char \<Rightarrow> bool) \<Rightarrow> string \<Rightarrow> (string \<times> char) list" where
  \<comment> \<open>each match as (group 1, the unit byte); the whole match is their concatenation\<close>
  "FindAllStringSubmatch U s = scan_matches U [] s"

definition ReplaceAllString_empty :: "(char \<Rightarrow> bool) \<Rightarrow> string \<Rightarrow> string" where
  \<comment> \<open>\<^verbatim>\<open>re.ReplaceAllString(s, "")\<close>\<close>
  "ReplaceAllString_empty U s = scan_remove U [] s"

definition monthRegex :: "char \<Rightarrow> bool" where
  "monthRegex c = (c = CHR ''M'')"

definition unitRegex :: "char \<Rightarrow> bool" where
  "unitRegex c = (c \<in> set ''mhdw'')"

definition whole_match :: "string \<times> char \<Rightarrow> string" where
  "whole_match m = fst m @ [snd m]"

section \<open>The deadline parser\<close>

datatype error =
    EmptyInput                \<comment> \<open>deadline cannot be empty\<close>
  | InvalidNumber string      \<comment> \<open>invalid number\<close>
  | MonthNotPositive          \<comment> \<open>time values must be postivie (sic), of a month token\<close>
  | NonPositiveValue          \<comment> \<open>time values must be positive\<close>
  | NoValidUnits              \<comment> \<open>no valid time units found\<close>
  | InvalidCharacters         \<comment> \<open>contains invalid characters or format\<close>
  | InvalidUnit string        \<comment> \<open>invalid time unit\<close>
  | NonPositiveTotal          \<comment> \<open>total duration must be positive\<close>
  | InvalidFormat error       \<comment> \<open>invalid deadline format, wrapping the parser's error\<close>

definition parseTimeUnit :: "int \<Rightarrow> string \<Rightarrow> error + duration" where
  "parseTimeUnit v unit =
     (if unit = ''m'' then Inr (wrap64 (v * Minute))
      else if unit = ''h'' then Inr (wrap64 (v * Hour))
      else if unit = ''d'' then Inr (wrap64 (wrap64 (v * 24) * Hour))
      else if unit = ''w'' then Inr (wrap64 (wrap64 (wrap64 (v * 7) * 24) * Hour))
      else Inl (InvalidUnit unit))"

fun sum_months :: "int \<Rightarrow> (string \<times> char) list \<Rightarrow> error + int" where
  \<comment> \<open>the first loop over the month matches\<close>
  "sum_months months [] = Inr months"
| "sum_months months (m # ms) =
     (case Atoi (fst m) of
        None \<Rightarrow> Inl (InvalidNumber (fst m))
      | Some v \<Rightarrow>
          if v \<le> 0 then Inl MonthNotPositive
          else sum_months (wrap64 (months + v)) ms)"

fun sum_units :: "duration \<Rightarrow> (string \<times> char) list \<Rightarrow> error + duration" where
  \<comment> \<open>the loop over the unit matches\<close>
  "sum_units acc [] = Inr acc"
| "sum_units acc (m # ms) =
     (case Atoi (fst m) of
        None \<Rightarrow> Inl (InvalidNumber (fst m))
      | Some v \<Rightarrow>
          if v \<le> 0 then Inl NonPositiveValue
          else (case parseTimeUnit v [snd m] of
                  Inl e \<Rightarrow> Inl e
                | Inr u \<Rightarrow> sum_units (wrap64 (acc + u)) ms))"

fun replace_months :: "string \<Rightarrow> (string \<times> char) list \<Rightarrow> string" where
  \<comment> \<open>the loop replacing, for each month match, its first lower-case occurrence by one M\<close>
  "replace_months s [] = s"
| "replace_months s (m # ms) = replace_months (Replace1 s (ToLower (whole_match m)) ''M'') ms"

definition parseRelativeTime ::
  "(time \<Rightarrow> int \<Rightarrow> int \<Rightarrow> int \<Rightarrow> time) \<Rightarrow> time \<Rightarrow> string \<Rightarrow> error + duration" where
  \<comment> \<open>\<^verbatim>\<open>AddDate\<close> is the library's, \<^verbatim>\<open>now\<close> the reading of the clock taken when months are present\<close>
  "parseRelativeTime AddDate now input =
     (let originalInput = input;
          monthMatches = FindAllStringSubmatch monthRegex originalInput
      in case sum_months 0 monthMatches of
           Inl e \<Rightarrow> Inl e
         | Inr months \<Rightarrow>
            (let processedInput = ToLower (ReplaceAllString_empty monthRegex originalInput);
                 matches = FindAllStringSubmatch unitRegex processedInput
             in if length matches = 0 \<and> months = 0 then Inl NoValidUnits
                else
                 (let reconstructed = concat (map whole_match matches) @ replicate (nat months) CHR ''M'';
                      inputNoSpace = replace_months
                         (ToLower (remove_char CHR 0x09 (remove_char CHR '' '' originalInput)))
                         monthMatches;
                      reconstructedNoSpaces = ToLower reconstructed
                  in if length reconstructedNoSpaces \<noteq> length inputNoSpace then Inl InvalidCharacters
                     else
                      (case sum_units 0 matches of
                         Inl e \<Rightarrow> Inl e
                       | Inr units \<Rightarrow>
                          (let totalDuration =
                                 (if months > 0
                                  then wrap64 (units + Sub (AddDate now 0 months 0) now)
                                  else units)
                           in if totalDuration \<le> 0 \<and> months = 0 then Inl NonPositiveTotal
                              else Inr totalDuration)))))"

subsection \<open>The absolute layout\<close>

text \<open>
  \<^verbatim>\<open>time.ParseInLocation("2006-01-02 15:04", input, time.Local)\<close> belongs to the standard
  library. Its reading of this one layout is written out: a year of exactly four digits,
  month, day and minute of exactly two digits, an hour of one or two digits, a space of the
  layout matching any run of spaces, nothing after the minute, and every field in range.
  The instant of the fields in the local zone is the library's \<^verbatim>\<open>Date\<close>, a parameter.
\<close>

definition getnum :: "string \<Rightarrow> bool \<Rightarrow> (int \<times> string) option" where
  "getnum s fixed =
     (case s of
        [] \<Rightarrow> None
      | c # r \<Rightarrow>
          if is_digit c
          then (case r of
                  [] \<Rightarrow> if fixed then None else Some (digit_val c, r)
                | c2 # r2 \<Rightarrow>
                    if is_digit c2 then Some (digit_val c * 10 + digit_val c2, r2)
                    else if fixed then None
                    else Some (digit_val c, r))
          else None)"

definition skip_char :: "char \<Rightarrow> string \<Rightarrow> string option" where
  \<comment> \<open>a literal byte of the layout other than a space\<close>
  "skip_char p s = (case s of [] \<Rightarrow> None | c # r \<Rightarrow> if c = p then Some r else None)"

definition skip_space :: "string \<Rightarrow> string option" where
  \<comment> \<open>a space of the layout: the value must not go on with another byte, and all its
      leading spaces are cut\<close>
  "skip_space s =
     (case s of
        [] \<Rightarrow> Some []
      | c # r \<Rightarrow> if c = CHR '' '' then Some (dropWhile (\<lambda>x. x = CHR '' '') s) else None)"

definition getyear :: "string \<Rightarrow> (int \<times> string) option" where
  "getyear s =
     (if length s < 4 then None
      else if list_all is_digit (take 4 s) then Some (parse_digits 0 (take 4 s), drop 4 s)
      else None)"

definition isLeap :: "int \<Rightarrow> bool" where
  "isLeap y = (if y mod 4 = 0 then (if y mod 100 = 0 then y mod 400 = 0 else True) else False)"

definition daysIn :: "int \<Rightarrow> int \<Rightarrow> int" where
  "daysIn m y =
     (if m = 2 then (if isLeap y then 29 else 28)
      else if m = 4 then 30 else if m = 6 then 30 else if m = 9 then 30 else if m = 11 then 30
      else 31)"

definition parse_layout :: "string \<Rightarrow> (int \<times> int \<times> int \<times> int \<times> int) option" where
  "parse_layout s =
     (case getyear s of None \<Rightarrow> None | Some (year, s1) \<Rightarrow>
     (case skip_char CHR ''-'' s1 of None \<Rightarrow> None | Some s2 \<Rightarrow>
     (case getnum s2 True of None \<Rightarrow> None | Some (month, s3) \<Rightarrow>
       if month \<le> 0 then None else if 12 < month then None else
     (case skip_char CHR ''-'' s3 of None \<Rightarrow> None | Some s4 \<Rightarrow>
     (case getnum s4 True of None \<Rightarrow> None | Some (day, s5) \<Rightarrow>
     (case skip_space s5 of None \<Rightarrow> None | Some s6 \<Rightarrow>
     (case getnum s6 False of None \<Rightarrow> None | Some (hour, s7) \<Rightarrow>
       if hour < 0 then None else if 24 \<le> hour then None else
     (case skip_char CHR '':'' s7 of None \<Rightarrow> None | Some s8 \<Rightarrow>
     (case getnum s8 True of None \<Rightarrow> None | Some (minute, s9) \<Rightarrow>
       if minute < 0 then None else if 60 \<le> minute then None
       else if s9 \<noteq> [] then None
       else if day < 1 then None else if day > daysIn month year then None
       else Some (year, month, day, hour, minute))))))))))"

definition ParseInLocation ::
  "(int \<Rightarrow> int \<Rightarrow> int \<Rightarrow> int \<Rightarrow> int \<Rightarrow> time) \<Rightarrow> string \<Rightarrow> time option" where
  "ParseInLocation Date s =
     (case parse_layout s of
        None \<Rightarrow> None
      | Some (year, month, day, hour, minute) \<Rightarrow> Some (Date year month day hour minute))"

definition Date_UTC :: "int \<Rightarrow> int \<Rightarrow> int \<Rightarrow> int \<Rightarrow> int \<Rightarrow> time" where
  "Date_UTC year month day hour minute =
     days_from_civil year month day * nsPerDay + hour * Hour + minute * Minute"

subsection \<open>ParseDeadline\<close>

definition ParseDeadline ::
  "(int \<Rightarrow> int \<Rightarrow> int \<Rightarrow> int \<Rightarrow> int \<Rightarrow> time) \<Rightarrow> (time \<Rightarrow> int \<Rightarrow> int \<Rightarrow> int \<Rightarrow> time) \<Rightarrow>
   time \<Rightarrow> time \<Rightarrow> string \<Rightarrow> error + time" where
  \<comment> \<open>\<^verbatim>\<open>now_rel\<close> is the clock as the relative parser reads it, \<^verbatim>\<open>now\<close> as read afterwards
      to place the deadline\<close>
  "ParseDeadline Date AddDate now_rel now input0 =
     (let input = TrimSpace input0
      in if input = [] then Inl EmptyInput
         else (case ParseInLocation Date input of
                 Some t \<Rightarrow> Inr t
               | None \<Rightarrow>
                  (case parseRelativeTime AddDate now_rel input of
                     Inl err \<Rightarrow> Inl (InvalidFormat err)
                   | Inr duration \<Rightarrow> Inr (Add now duration))))"

subsection \<open>Writing numbers\<close>

text \<open>The decimal digits of a number, to state properties of every token of a shape.\<close>

definition digit_char :: "nat \<Rightarrow> char" where
  "digit_char k = ''0123456789'' ! k"

fun digits_of :: "nat \<Rightarrow> string" where
  "digits_of n = (if n < 10 then [digit_char n] else digits_of (n div 10) @ [digit_char (n mod 10)])"

definition pad2 :: "nat \<Rightarrow> string" where
  "pad2 n = [digit_char (n div 10 mod 10), digit_char (n mod 10)]"

definition pad4 :: "nat \<Rightarrow> string" where
  "pad4 n = [digit_char (n div 1000 mod 10), digit_char (n div 100 mod 10),
             digit_char (n div 10 mod 10), digit_char (n mod 10)]"

definition layout_text :: "nat \<Rightarrow> nat \<Rightarrow> nat \<Rightarrow> nat \<Rightarrow> nat \<Rightarrow> string" where
  \<comment> \<open>the text \<^verbatim>\<open>YYYY-MM-DD HH:MM\<close> of five fields\<close>
  "layout_text y m d h mi = pad4 y @ ''-'' @ pad2 m @ ''-'' @ pad2 d @ '' '' @ pad2 h @ '':'' @ pad2 mi"


section \<open>Tasks\<close>

record Todo =
  ID :: string
  Title :: string
  Description :: string
  Deadline :: "time option"
  Completed :: bool
  CompletedAt :: "time option"
  CreatedAt :: time
  UpdatedAt :: time

definition IsOverdue :: "time \<Rightarrow> Todo \<Rightarrow> bool" where
  "IsOverdue now t =
     (case Deadline t of
        None \<Rightarrow> False
      | Some d \<Rightarrow> if Completed t then False else Before d now)"


definition MarkComplete :: "time \<Rightarrow> Todo \<Rightarrow> Todo" where
  "MarkComplete now t = t\<lparr>Completed := True, CompletedAt := Some now, UpdatedAt := now\<rparr>"

definition MarkIncomplete :: "time \<Rightarrow> Todo \<Rightarrow> Todo" where
  "MarkIncomplete now t = t\<lparr>Completed := False, CompletedAt := None, UpdatedAt := now\<rparr>"

section \<open>Storage\<close>

text \<open>
  The database holds two buckets. A stored value is the JSON text of a record; it is
  modelled by what \<^verbatim>\<open>json.Unmarshal\<close> makes of it: the record it decodes to, or a failure
  together with the record the decoder left behind. A bucket keeps its keys in byte order
  and \<^verbatim>\<open>ForEach\<close> visits them in that order. Whether a write transaction fails (in
  \<^verbatim>\<open>json.Marshal\<close> or in \<^verbatim>\<open>Put\<close>) is decided by the storage engine, and is a parameter.

  The counters of the streak are Go ints of 64 bits. They grow by one per completion, so
  they cannot reach the end of that range, and they are modelled as unbounded integers.
\<close>

datatype 'a stored = Decoded 'a | Corrupt 'a

datatype db_error = TodoNotFound | DecodeFailed | WriteFailed

record Streak =
  CurrentStreak :: int
  MaxStreak :: int
  LastCompletedAt :: time
  TotalCompleted :: int
  DailyCompletions :: "(string \<rightharpoonup> int) option"

record DB =
  todoBucket :: "(string \<times> Todo stored) list"
  streakBucket :: "Streak stored option"

fun key_less :: "string \<Rightarrow> string \<Rightarrow> bool" where
  "key_less [] [] = False"
| "key_less [] (y # ys) = True"
| "key_less (x # xs) [] = False"
| "key_less (x # xs) (y # ys) =
     (if (of_char x :: nat) < of_char y then True
      else if (of_char y :: nat) < of_char x then False
      else key_less xs ys)"

fun bucket_put :: "string \<Rightarrow> 'a \<Rightarrow> (string \<times> 'a) list \<Rightarrow> (string \<times> 'a) list" where
  "bucket_put k v [] = [(k, v)]"
| "bucket_put k v ((k', v') # r) =
     (if k = k' then (k, v) # r
      else if key_less k k' then (k, v) # (k', v') # r
      else (k', v') # bucket_put k v r)"

definition GetTodo :: "DB \<Rightarrow> string \<Rightarrow> Todo option \<times> db_error option" where
  \<comment> \<open>the pointer and the error that the function returns\<close>
  "GetTodo db ident =
     (case map_of (todoBucket db) ident of
        None \<Rightarrow> (None, Some TodoNotFound)
      | Some (Decoded t) \<Rightarrow> (Some t, None)
      | Some (Corrupt t) \<Rightarrow> (Some t, Some DecodeFailed))"

subsection \<open>Sorting\<close>

text \<open>
  \<^verbatim>\<open>sort.Slice\<close> belongs to the standard library. On slices of at most twelve elements it
  is the insertion sort below: each element in turn moves left while it is less than its
  left neighbour. On longer slices the library uses another algorithm with the same
  contract, and may leave elements that compare equal in another order. The sorted
  prefix is kept reversed, its last element first.
\<close>

fun insert_left :: "('a \<Rightarrow> 'a \<Rightarrow> bool) \<Rightarrow> 'a \<Rightarrow> 'a list \<Rightarrow> 'a list" where
  "insert_left lt x [] = [x]"
| "insert_left lt x (y # ys) =
     (if lt x y then y # insert_left lt x ys else x # y # ys)"

definition sort_Slice :: "('a \<Rightarrow> 'a \<Rightarrow> bool) \<Rightarrow> 'a list \<Rightarrow> 'a list" where
  "sort_Slice lt xs = rev (foldl (\<lambda>sorted x. insert_left lt x sorted) [] xs)"

subsection \<open>Listing\<close>

definition todo_less :: "Todo \<Rightarrow> Todo \<Rightarrow> bool" where
  \<comment> \<open>the comparison of \<^verbatim>\<open>GetAllTodos\<close>\<close>
  "todo_less a b =
     (if Completed a \<noteq> Completed b then \<not> Completed a
      else if \<not> Completed a
      then (case Deadline a of
              Some da \<Rightarrow> (case Deadline b of Some db \<Rightarrow> Before da db | None \<Rightarrow> True)
            | None \<Rightarrow> (case Deadline b of Some db \<Rightarrow> False
                                         | None \<Rightarrow> After (CreatedAt a) (CreatedAt b)))
      else After (CreatedAt a) (CreatedAt b))"

fun decode_all :: "(string \<times> Todo stored) list \<Rightarrow> db_error + Todo list" where
  \<comment> \<open>the \<^verbatim>\<open>ForEach\<close> of \<^verbatim>\<open>GetAllTodos\<close>: the first value that does not decode ends it\<close>
  "decode_all [] = Inr []"
| "decode_all ((k, Corrupt t) # r) = Inl DecodeFailed"
| "decode_all ((k, Decoded t) # r) =
     (case decode_all r of Inl e \<Rightarrow> Inl e | Inr ts \<Rightarrow> Inr (t # ts))"

definition GetAllTodos :: "DB \<Rightarrow> db_error + Todo list" where
  "GetAllTodos db =
     (case decode_all (todoBucket db) of
        Inl e \<Rightarrow> Inl e
      | Inr todos \<Rightarrow> Inr (sort_Slice todo_less todos))"

definition upcoming_less :: "Todo \<Rightarrow> Todo \<Rightarrow> bool" where
  \<comment> \<open>the comparison of \<^verbatim>\<open>GetTopUpcomingTodos\<close>\<close>
  "upcoming_less a b =
     (case Deadline a of
        None \<Rightarrow> False
      | Some da \<Rightarrow> (case Deadline b of None \<Rightarrow> False | Some db \<Rightarrow> Before da db))"

definition is_upcoming :: "Todo \<Rightarrow> bool" where
  "is_upcoming t = (if Completed t then False else Deadline t \<noteq> None)"

datatype panic = SliceBoundsOutOfRange

definition GetTopUpcomingTodos :: "Todo list \<Rightarrow> int \<Rightarrow> panic + Todo list" where
  \<comment> \<open>\<^verbatim>\<open>upcomingTodos[:limit]\<close> panics on a negative limit\<close>
  "GetTopUpcomingTodos todos limit =
     (let upcomingTodos = sort_Slice upcoming_less (filter is_upcoming todos)
      in if int (length upcomingTodos) > limit
         then (if limit < 0 then Inl SliceBoundsOutOfRange
               else Inr (take (nat limit) upcomingTodos))
         else Inr upcomingTodos)"

definition GetTodosWithoutDeadline :: "Todo list \<Rightarrow> Todo list" where
  "GetTodosWithoutDeadline todos =
     filter (\<lambda>t. if Completed t then False else Deadline t = None) todos"

subsection \<open>The streak\<close>

definition zero_streak :: Streak where
  \<comment> \<open>what \<^verbatim>\<open>GetStreak\<close> returns when nothing is stored\<close>
  "zero_streak =
     \<lparr>CurrentStreak = 0, MaxStreak = 0, LastCompletedAt = zeroTime, TotalCompleted = 0,
      DailyCompletions = Some Map.empty\<rparr>"

definition GetStreak :: "DB \<Rightarrow> Streak \<times> db_error option" where
  "GetStreak db =
     (case streakBucket db of
        None \<Rightarrow> (zero_streak, None)
      | Some (Decoded s) \<Rightarrow> (s, None)
      | Some (Corrupt s) \<Rightarrow> (s, Some DecodeFailed))"

definition UpdateStreak :: "db_error option \<Rightarrow> DB \<Rightarrow> Streak \<Rightarrow> db_error option \<times> DB" where
  "UpdateStreak werr db s =
     (case werr of
        Some e \<Rightarrow> (Some e, db)
      | None \<Rightarrow> (None, db\<lparr>streakBucket := Some (Decoded s)\<rparr>))"

definition daily_of :: "Streak \<Rightarrow> (string \<rightharpoonup> int)" where
  \<comment> \<open>the map, made when it is nil\<close>
  "daily_of s = (case DailyCompletions s of None \<Rightarrow> Map.empty | Some m \<Rightarrow> m)"

definition daily_count :: "(string \<rightharpoonup> int) \<Rightarrow> string \<Rightarrow> int" where
  \<comment> \<open>reading a key of a Go map: zero when it is absent\<close>
  "daily_count m k = (case m k of None \<Rightarrow> 0 | Some n \<Rightarrow> n)"

definition streak_transition :: "(time \<Rightarrow> string) \<Rightarrow> time \<Rightarrow> Streak \<Rightarrow> Streak" where
  \<comment> \<open>the body of \<^verbatim>\<open>updateStreakOnCompletion\<close> between reading and writing the streak;
      \<^verbatim>\<open>Format\<close> is the library's day label of an instant in the local zone\<close>
  "streak_transition Format now streak =
     (let today = Format now;
          daily = daily_of streak;
          s1 = streak\<lparr>DailyCompletions := Some (daily(today \<mapsto> daily_count daily today + 1)),
                      TotalCompleted := TotalCompleted streak + 1\<rparr>;
          s2 = (if \<not> IsZero (LastCompletedAt s1)
                then (let daysSinceLastCompletion = days_of_Hours (Sub now (LastCompletedAt s1))
                      in if daysSinceLastCompletion = 0 then s1
                         else if daysSinceLastCompletion = 1
                         then (let s' = s1\<lparr>CurrentStreak := CurrentStreak s1 + 1\<rparr>
                               in if CurrentStreak s' > MaxStreak s'
                                  then s'\<lparr>MaxStreak := CurrentStreak s'\<rparr>
                                  else s')
                         else s1\<lparr>CurrentStreak := 1\<rparr>)
                else (let s' = s1\<lparr>CurrentStreak := 1\<rparr>
                      in if MaxStreak s' = 0 then s'\<lparr>MaxStreak := 1\<rparr> else s'))
      in s2\<lparr>LastCompletedAt := now\<rparr>)"

definition updateStreakOnCompletion ::
  "(time \<Rightarrow> string) \<Rightarrow> time \<Rightarrow> db_error option \<Rightarrow> DB \<Rightarrow> db_error option \<times> DB" where
  "updateStreakOnCompletion Format now werr db =
     (case GetStreak db of
        (streak, Some e) \<Rightarrow> (Some e, db)
      | (streak, None) \<Rightarrow> UpdateStreak werr db (streak_transition Format now streak))"

fun streak_after :: "(time \<Rightarrow> string) \<Rightarrow> time list \<Rightarrow> Streak" where
  \<comment> \<open>the streak after completions at the given instants, the latest first, starting from
      the streak of an empty database\<close>
  "streak_after Format [] = zero_streak"
| "streak_after Format (now # earlier) = streak_transition Format now (streak_after Format earlier)"

subsection \<open>Updating a task\<close>

definition UpdateTodo ::
  "(time \<Rightarrow> string) \<Rightarrow> time \<Rightarrow> db_error option \<Rightarrow> time \<Rightarrow> db_error option \<Rightarrow> Todo \<Rightarrow> DB \<Rightarrow>
   db_error option \<times> Todo \<times> DB" where
  \<comment> \<open>\<^verbatim>\<open>now\<close> and \<^verbatim>\<open>werr\<close> are the clock and the outcome of the write of the task,
      \<^verbatim>\<open>snow\<close> and \<^verbatim>\<open>swerr\<close> those of the streak; the result is the error returned, the task
      as the caller sees it afterwards, and the database\<close>
  "UpdateTodo Format now werr snow swerr todo db =
     (let wasCompleted = (case fst (GetTodo db (ID todo)) of
                            None \<Rightarrow> False
                          | Some existingTodo \<Rightarrow> Completed existingTodo);
          todo' = todo\<lparr>UpdatedAt := now\<rparr>;
          err = werr;
          db1 = (case werr of
                   Some e \<Rightarrow> db
                 | None \<Rightarrow> db\<lparr>todoBucket := bucket_put (ID todo) (Decoded todo') (todoBucket db)\<rparr>);
          db2 = (if err \<noteq> None \<and> \<not> wasCompleted \<and> Completed todo
                 then snd (updateStreakOnCompletion Format snow swerr db1)
                 else db1)
      in (err, todo', db2))"

section \<open>Example data\<close>

definition new_task :: "string \<Rightarrow> time option \<Rightarrow> bool \<Rightarrow> time \<Rightarrow> Todo" where
  \<comment> \<open>a task as the tests of the repository build them\<close>
  "new_task ident deadline completed created =
     \<lparr>ID = ident, Title = ''task'', Description = ''text'', Deadline = deadline,
      Completed = completed, CompletedAt = (if completed then Some created else None),
      CreatedAt = created, UpdatedAt = created\<rparr>"

section \<open>Evaluation\<close>

lemmas parser_eval =
  parseRelativeTime_def FindAllStringSubmatch_def ReplaceAllString_empty_def monthRegex_def
  unitRegex_def is_digit_def Atoi_def digit_val_def wrap64_def ToLower_def lower_char_def
  whole_match_def remove_char_def parseTimeUnit_def Minute_def Hour_def

lemmas deadline_eval =
  ParseDeadline_def TrimSpace_def is_space_def ParseInLocation_def parse_layout_def getyear_def
  getnum_def skip_char_def skip_space_def daysIn_def isLeap_def

section \<open>Malformed deadlines\<close>
















section \<open>Digits\<close>

lemma nat_lt_10_cases:
  "k < 10 \<Longrightarrow> k = 0 \<or> k = 1 \<or> k = 2 \<or> k = 3 \<or> k = 4 \<or> k = 5 \<or> k = 6 \<or> k = 7 \<or> k = 8 \<or> k = (9::nat)"
  by arith

lemma digit_char_props:
  assumes "k < 10"
  shows "is_digit (digit_char k)" and "digit_val (digit_char k) = int k"
  using nat_lt_10_cases [OF assms]
  by (auto simp add: is_digit_def digit_char_def digit_val_def)

lemma is_digit_not_space: "is_digit c \<Longrightarrow> \<not> is_space c"
  by (auto simp add: is_digit_def is_space_def)

lemma upper_case_range:
  assumes "map_of (zip ''ABCDEFGHIJKLMNOPQRSTUVWXYZ'' ''abcdefghijklmnopqrstuvwxyz'') c = Some l"
  shows "65 \<le> (of_char c :: nat)"
proof -
  from assms have "c \<in> set ''ABCDEFGHIJKLMNOPQRSTUVWXYZ''"
    by (meson map_of_SomeD set_zip_leftD)
  then show ?thesis by auto
qed

lemma is_digit_lower: "is_digit c \<Longrightarrow> lower_char c = c"
proof (cases "map_of (zip ''ABCDEFGHIJKLMNOPQRSTUVWXYZ'' ''abcdefghijklmnopqrstuvwxyz'') c")
  case None
  then show ?thesis by (simp only: lower_char_def option.case)
next
  case (Some l)
  assume "is_digit c"
  with upper_case_range [OF Some] show ?thesis by (simp add: is_digit_def)
qed

lemma is_digit_neq:
  assumes "is_digit c"
  shows "c \<noteq> CHR ''M''" and "c \<noteq> CHR ''m''" and "c \<noteq> CHR '' ''" and "c \<noteq> CHR 0x09"
    and "c \<noteq> CHR ''-''" and "c \<noteq> CHR '':''"
  using assms by (auto simp add: is_digit_def)

declare digits_of.simps [simp del]

lemma digits_of_digits: "list_all is_digit (digits_of n)"
proof (induction n rule: digits_of.induct)
  case (1 n)
  show ?case
  proof (cases "n < 10")
    case True
    then show ?thesis by (subst digits_of.simps) (simp add: digit_char_props(1))
  next
    case False
    have "n mod 10 < 10" by simp
    with False 1 show ?thesis
      by (subst digits_of.simps) (simp add: digit_char_props(1))
  qed
qed

lemma digits_of_not_Nil: "digits_of n \<noteq> []"
  by (subst digits_of.simps) simp

lemma parse_digits_snoc: "parse_digits acc (xs @ [c]) = 10 * parse_digits acc xs + digit_val c"
  by (induction xs arbitrary: acc) simp_all

lemma parse_digits_of: "parse_digits 0 (digits_of n) = int n"
proof (induction n rule: digits_of.induct)
  case (1 n)
  show ?case
  proof (cases "n < 10")
    case True
    then show ?thesis by (subst digits_of.simps) (simp add: digit_char_props(2))
  next
    case False
    have m: "n mod 10 < 10" by simp
    have "n = 10 * (n div 10) + n mod 10" by simp
    then have "int n = int (10 * (n div 10) + n mod 10)" by (rule arg_cong)
    then have "int n = 10 * int (n div 10) + int (n mod 10)"
      by (simp only: of_nat_add of_nat_mult of_nat_numeral)
    with False 1 show ?thesis
      by (subst digits_of.simps) (simp add: parse_digits_snoc digit_char_props(2) [OF m])
  qed
qed

lemma Atoi_digits_of:
  assumes "int n \<le> 9223372036854775807"
  shows "Atoi (digits_of n) = Some (int n)"
  using assms by (simp add: Atoi_def digits_of_not_Nil digits_of_digits parse_digits_of)

lemma ToLower_digits: "list_all is_digit ds \<Longrightarrow> ToLower ds = ds"
  by (induction ds) (simp_all add: ToLower_def is_digit_lower)

lemma remove_char_digits:
  "list_all is_digit ds \<Longrightarrow> remove_char CHR '' '' ds = ds"
  "list_all is_digit ds \<Longrightarrow> remove_char CHR 0x09 ds = ds"
  by (induction ds) (simp_all add: remove_char_def is_digit_neq)

lemma scan_matches_digits:
  "list_all is_digit ds \<Longrightarrow> scan_matches U run (ds @ rest) = scan_matches U (run @ ds) rest"
  by (induction ds arbitrary: run) simp_all

lemma scan_remove_digits:
  "list_all is_digit ds \<Longrightarrow> scan_remove U run (ds @ rest) = scan_remove U (run @ ds) rest"
  by (induction ds arbitrary: run) simp_all

lemma is_prefix_append: "is_prefix xs (xs @ ys)"
  by (induction xs) simp_all

lemma Replace1_whole: "xs \<noteq> [] \<Longrightarrow> Replace1 xs xs new = new"
  using is_prefix_append [of xs "[]"] by (cases xs) simp_all

lemma wrap64_id: "minDuration \<le> x \<Longrightarrow> x \<le> maxDuration \<Longrightarrow> wrap64 x = x"
  by (simp add: wrap64_def minDuration_def maxDuration_def)

lemma Sub_range: "minDuration \<le> Sub t u" "Sub t u \<le> maxDuration"
  by (simp_all add: Sub_def Let_def minDuration_def maxDuration_def)

lemma wrap64_Sub: "wrap64 (Sub t u) = Sub t u"
  by (rule wrap64_id) (rule Sub_range)+

section \<open>Single tokens\<close>

lemma month_matches:
  "FindAllStringSubmatch monthRegex (digits_of k @ ''M'') = [(digits_of k, CHR ''M'')]"
  using scan_matches_digits [OF digits_of_digits, of monthRegex "[]" k "''M''"]
  by (simp add: FindAllStringSubmatch_def monthRegex_def digits_of_not_Nil is_digit_def)

lemma month_removed:
  "ReplaceAllString_empty monthRegex (digits_of k @ ''M'') = []"
  using scan_remove_digits [OF digits_of_digits, of monthRegex "[]" k "''M''"]
  by (simp add: ReplaceAllString_empty_def monthRegex_def digits_of_not_Nil is_digit_def)

lemma month_input_no_space:
  "replace_months (ToLower (remove_char CHR 0x09 (remove_char CHR '' '' (digits_of k @ ''M''))))
     [(digits_of k, CHR ''M'')] = ''M''"
proof -
  have low: "ToLower (digits_of k @ ''M'') = digits_of k @ ''m''"
    using ToLower_digits [OF digits_of_digits, of k] by (simp add: ToLower_def lower_char_def)
  have "remove_char CHR 0x09 (remove_char CHR '' '' (digits_of k @ ''M'')) = digits_of k @ ''M''"
    using remove_char_digits [OF digits_of_digits, of k] by (simp add: remove_char_def)
  then show ?thesis
    by (simp add: whole_match_def low Replace1_whole del: Replace1.simps)
qed

lemma month_token_aux:
  assumes "0 < k" and "int k \<le> 9223372036854775807"
  shows "parseRelativeTime AddDate now (digits_of k @ ''M'') =
           (if k = 1 then Inr (Sub (AddDate now 0 1 0) now) else Inl InvalidCharacters)"
proof -
  have months: "sum_months 0 [(digits_of k, CHR ''M'')] = Inr (int k)"
    using assms by (simp add: Atoi_digits_of wrap64_def)
  have nomatch: "FindAllStringSubmatch unitRegex (ToLower []) = []"
    by (simp add: FindAllStringSubmatch_def ToLower_def)
  show ?thesis
    unfolding parseRelativeTime_def Let_def month_matches month_removed month_input_no_space
      months nomatch
    using assms(1) by (simp add: ToLower_def wrap64_Sub)
qed


lemma minute_no_month:
  "FindAllStringSubmatch monthRegex (digits_of n @ ''m'') = []"
  using scan_matches_digits [OF digits_of_digits, of monthRegex "[]" n "''m''"]
  by (simp add: FindAllStringSubmatch_def monthRegex_def is_digit_def)

lemma minute_kept:
  "ReplaceAllString_empty monthRegex (digits_of n @ ''m'') = digits_of n @ ''m''"
  using scan_remove_digits [OF digits_of_digits, of monthRegex "[]" n "''m''"]
  by (simp add: ReplaceAllString_empty_def monthRegex_def is_digit_def)

lemma minute_lower: "ToLower (digits_of n @ ''m'') = digits_of n @ ''m''"
  using ToLower_digits [OF digits_of_digits, of n] by (simp add: ToLower_def lower_char_def)

lemma minute_matches:
  "FindAllStringSubmatch unitRegex (digits_of n @ ''m'') = [(digits_of n, CHR ''m'')]"
  using scan_matches_digits [OF digits_of_digits, of unitRegex "[]" n "''m''"]
  by (simp add: FindAllStringSubmatch_def unitRegex_def digits_of_not_Nil is_digit_def)

lemma minute_no_space:
  "remove_char CHR 0x09 (remove_char CHR '' '' (digits_of n @ ''m'')) = digits_of n @ ''m''"
  using remove_char_digits [OF digits_of_digits, of n] by (simp add: remove_char_def)

lemma minute_token_aux:
  assumes "0 < n" and "int n * Minute \<le> maxDuration"
  shows "parseRelativeTime AddDate now (digits_of n @ ''m'') = Inr (int n * Minute)"
proof -
  have small: "int n \<le> 9223372036854775807"
    using assms(2) by (simp add: Minute_def maxDuration_def)
  have w: "wrap64 (int n * Minute) = int n * Minute"
    using assms by (intro wrap64_id) (simp_all add: minDuration_def Minute_def)
  have units: "sum_units 0 [(digits_of n, CHR ''m'')] = Inr (int n * Minute)"
    using assms(1) by (simp add: Atoi_digits_of [OF small] parseTimeUnit_def w)
  have pos: "0 < int n * Minute" using assms(1) by (simp add: Minute_def)
  show ?thesis
    unfolding parseRelativeTime_def Let_def minute_no_month minute_kept minute_lower
      minute_matches minute_no_space units
    using pos by (simp add: whole_match_def minute_lower)
qed

section \<open>The absolute layout, field by field\<close>

lemma pad2_arith:
  assumes "n < 100"
  shows "int (n div 10 mod 10) * 10 + int (n mod 10) = int n"
proof -
  have "n div 10 < 10" using assms by simp
  then have "n div 10 mod 10 = n div 10" by simp
  moreover have "n div 10 * 10 + n mod 10 = n" by simp
  ultimately have "(n div 10 mod 10) * 10 + n mod 10 = n" by simp
  then have "int ((n div 10 mod 10) * 10 + n mod 10) = int n" by (rule arg_cong)
  then show ?thesis by (simp only: of_nat_add of_nat_mult of_nat_numeral)
qed

lemma pad2_digits: "is_digit (digit_char (n div 10 mod 10))" "is_digit (digit_char (n mod 10))"
  by (simp_all add: digit_char_props(1))

lemma pad2_value:
  assumes "n < 100"
  shows "getnum (pad2 n @ rest) fixed = Some (int n, rest)"
proof -
  have d1: "n div 10 mod 10 < 10" and d0: "n mod 10 < 10" by simp_all
  show ?thesis
    by (simp add: getnum_def pad2_def pad2_digits digit_char_props(2) [OF d1]
        digit_char_props(2) [OF d0] pad2_arith [OF assms])
qed

lemma pad4_arith:
  assumes "n < 10000"
  shows "10 * (10 * (10 * int (n div 1000 mod 10) + int (n div 100 mod 10)) + int (n div 10 mod 10))
           + int (n mod 10) = int n"
proof -
  have a: "n = 10 * (n div 10) + n mod 10" by simp
  have b: "n div 10 = 10 * (n div 100) + n div 10 mod 10"
    using div_mult_mod_eq [of "n div 10" 10] by (simp add: div_mult2_eq [symmetric])
  have c: "n div 100 = 10 * (n div 1000) + n div 100 mod 10"
    using div_mult_mod_eq [of "n div 100" 10] by (simp add: div_mult2_eq [symmetric])
  have "n div 1000 < 10" using assms by simp
  then have d: "n div 1000 mod 10 = n div 1000" by simp
  have "n = 10 * (10 * (10 * (n div 1000 mod 10) + n div 100 mod 10) + n div 10 mod 10) + n mod 10"
    using a b c d by presburger
  then have "int n = int (10 * (10 * (10 * (n div 1000 mod 10) + n div 100 mod 10) + n div 10 mod 10) + n mod 10)"
    by (rule arg_cong)
  then show ?thesis by (simp only: of_nat_add of_nat_mult of_nat_numeral)
qed

lemma pad4_value:
  assumes "n < 10000"
  shows "getyear (pad4 n @ rest) = Some (int n, rest)"
proof -
  have d: "n div 1000 mod 10 < 10" "n div 100 mod 10 < 10" "n div 10 mod 10 < 10" "n mod 10 < 10"
    by simp_all
  show ?thesis
    by (simp add: getyear_def pad4_def digit_char_props(1) digit_char_props(2) [OF d(1)]
        digit_char_props(2) [OF d(2)] digit_char_props(2) [OF d(3)] digit_char_props(2) [OF d(4)]
        pad4_arith [OF assms, simplified])
qed

lemma skip_space_pad2: "skip_space (CHR '' '' # pad2 n @ rest) = Some (pad2 n @ rest)"
  using is_digit_neq(3) [OF pad2_digits(1), of n] by (simp add: skip_space_def pad2_def)

lemma layout_text_trimmed: "TrimSpace (layout_text y m d h mi) = layout_text y m d h mi"
proof -
  have "\<not> is_space (digit_char (y div 1000 mod 10))" "\<not> is_space (digit_char (mi mod 10))"
    by (simp_all add: is_digit_not_space digit_char_props(1))
  then show ?thesis
    by (simp add: TrimSpace_def layout_text_def pad4_def pad2_def)
qed

lemma parse_layout_text:
  assumes "y < 10000" and "1 \<le> m" and "m \<le> 12" and "1 \<le> d" and "int d \<le> daysIn (int m) (int y)"
    and "h < 24" and "mi < 60"
  shows "parse_layout (layout_text y m d h mi) = Some (int y, int m, int d, int h, int mi)"
proof -
  have "daysIn (int m) (int y) \<le> 31" by (simp add: daysIn_def)
  with assms have b: "m < 100" "d < 100" "h < 100" "mi < 100" by simp_all
  have last: "getnum (pad2 mi) True = Some (int mi, [])"
    using pad2_value [OF b(4), of "[]" True] by simp
  show ?thesis
    unfolding parse_layout_def layout_text_def
    using assms
    by (simp add: pad4_value [OF assms(1)] pad2_value [OF b(1)] pad2_value [OF b(2)]
        pad2_value [OF b(3)] last skip_char_def skip_space_pad2)
qed

section \<open>Claims about the deadline parser\<close>

lemma one_month_from_epoch: "AddDate_UTC 0 0 1 0 = 2678400000000000"
  by code_simp

lemma digits_of_small:
  "digits_of 1 = ''1''" "digits_of (Suc 0) = ''1''" "digits_of 2 = ''2''" "digits_of 5 = ''5''"
  by (simp_all add: digits_of.simps digit_char_def)

lemma month_with_days:
  "parseRelativeTime AddDate now ''1M 2d'' = Inr (wrap64 (2 * 24 * Hour + Sub (AddDate now 0 1 0) now))"
  "parseRelativeTime AddDate now ''2M 2d'' = Inl InvalidCharacters"
  by (simp_all add: parser_eval)

text \<open>
  C2. For a positive count \<^verbatim>\<open>k\<close> that fits an int, the relative parser on the single
  token \<^verbatim>\<open>kM\<close> returns the calendar difference \<^verbatim>\<open>now.AddDate(0, 1, 0) - now\<close> when
  \<^verbatim>\<open>k = 1\<close> and fails with InvalidCharacters for every other \<^verbatim>\<open>k\<close>: the reconstructed
  text holds one M per month counted, the input one M per month token. Next to a day
  token, one month is added as the calendar difference and two months are rejected.
\<close>

theorem month_token_single_only:
  assumes "0 < k" and "int k \<le> 9223372036854775807"
  shows "parseRelativeTime AddDate now (digits_of k @ ''M'') =
           (if k = 1 then Inr (Sub (AddDate now 0 1 0) now) else Inl InvalidCharacters)
         \<and> parseRelativeTime AddDate now ''1M 2d'' =
             Inr (wrap64 (2 * 24 * Hour + Sub (AddDate now 0 1 0) now))
         \<and> parseRelativeTime AddDate now ''2M 2d'' = Inl InvalidCharacters"
  using month_token_aux [OF assms] month_with_days by simp

theorem month_token_single_only_witness:
  "(0::nat) < 2 \<and> int 2 \<le> 9223372036854775807
   \<and> parseRelativeTime AddDate_UTC 0 ''2M'' = Inl InvalidCharacters
   \<and> parseRelativeTime AddDate_UTC 0 ''1M'' = Inr (744 * Hour)"
  using month_token_single_only [where k = 2 and AddDate = AddDate_UTC and now = 0]
    month_token_single_only [where k = 1 and AddDate = AddDate_UTC and now = 0]
  by (simp add: digits_of_small one_month_from_epoch Sub_def maxDuration_def minDuration_def Hour_def)

text \<open>
  C6. A text \<^verbatim>\<open>YYYY-MM-DD HH:MM\<close> whose fields are a year below 10000, a month, a day of
  that month, an hour below 24 and a minute below 60 resolves to the local instant of
  these fields, whatever the clock and the relative parser. The text
  \<^verbatim>\<open>2025-13-01 14:30\<close> is rejected by the absolute layout, then by the relative parser
  with NoValidUnits, and fails with InvalidFormat wrapping that error.
\<close>

theorem absolute_deadline_resolved:
  assumes "y < 10000" and "1 \<le> m" and "m \<le> 12" and "1 \<le> d" and "int d \<le> daysIn (int m) (int y)"
    and "h < 24" and "mi < 60"
  shows "ParseDeadline Date AddDate now_rel now (layout_text y m d h mi) =
           Inr (Date (int y) (int m) (int d) (int h) (int mi))
         \<and> ParseInLocation Date ''2025-13-01 14:30'' = None
         \<and> parseRelativeTime AddDate now_rel ''2025-13-01 14:30'' = Inl NoValidUnits
         \<and> ParseDeadline Date AddDate now_rel now ''2025-13-01 14:30'' =
             Inl (InvalidFormat NoValidUnits)"
proof -
  have "layout_text y m d h mi \<noteq> []"
    by (simp add: layout_text_def pad4_def)
  then have "ParseDeadline Date AddDate now_rel now (layout_text y m d h mi) =
      Inr (Date (int y) (int m) (int d) (int h) (int mi))"
    by (simp add: ParseDeadline_def layout_text_trimmed ParseInLocation_def
        parse_layout_text [OF assms])
  moreover have "ParseInLocation Date ''2025-13-01 14:30'' = None"
    by (simp add: deadline_eval is_digit_def digit_val_def)
  moreover have "parseRelativeTime AddDate now_rel ''2025-13-01 14:30'' = Inl NoValidUnits"
    by (simp add: parser_eval)
  moreover have "ParseDeadline Date AddDate now_rel now ''2025-13-01 14:30'' =
      Inl (InvalidFormat NoValidUnits)"
    by (simp add: deadline_eval parser_eval)
  ultimately show ?thesis by simp
qed

theorem absolute_deadline_resolved_witness:
  "(2025::nat) < 10000 \<and> (1::nat) \<le> 11 \<and> (11::nat) \<le> 12 \<and> (1::nat) \<le> 16
   \<and> int 16 \<le> daysIn (int 11) (int 2025) \<and> (14::nat) < 24 \<and> (30::nat) < 60
   \<and> ParseDeadline Date_UTC AddDate_UTC 0 0 ''2025-11-16 14:30'' = Inr (Date_UTC 2025 11 16 14 30)"
proof -
  have h: "int 16 \<le> daysIn (int 11) (int 2025)" by (simp add: daysIn_def)
  have t: "layout_text 2025 11 16 14 30 = ''2025-11-16 14:30''"
    by (simp add: layout_text_def pad4_def pad2_def digit_char_def)
  show ?thesis
    using h absolute_deadline_resolved [where y = 2025 and m = 11 and d = 16 and h = 14 and mi = 30
        and Date = Date_UTC and AddDate = AddDate_UTC and now_rel = 0 and now = 0]
    by (simp add: t)
qed

text \<open>
  C8, as the program has it. The month pattern is matched on the input as written, with
  the capital M only. For every positive \<^verbatim>\<open>n\<close> whose minutes fit a duration, the token
  with the lower-case marker \<^verbatim>\<open>nm\<close> holds no month match and parses to \<^verbatim>\<open>n\<close> minutes,
  whatever the calendar; the token \<^verbatim>\<open>nM\<close> holds one month match.
\<close>

theorem lowercase_marker_is_minutes:
  assumes "0 < n" and "int n * Minute \<le> maxDuration"
  shows "parseRelativeTime AddDate now (digits_of n @ ''m'') = Inr (int n * Minute)
         \<and> FindAllStringSubmatch monthRegex (digits_of n @ ''m'') = []
         \<and> FindAllStringSubmatch monthRegex (digits_of n @ ''M'') = [(digits_of n, CHR ''M'')]"
  using minute_token_aux [OF assms] minute_no_month month_matches by simp

theorem lowercase_marker_is_minutes_witness:
  "(0::nat) < 5 \<and> int 5 * Minute \<le> maxDuration
   \<and> parseRelativeTime AddDate_UTC 0 ''5m'' = Inr (5 * Minute)"
proof -
  have h: "int 5 * Minute \<le> maxDuration" by (simp add: Minute_def maxDuration_def)
  show ?thesis
    using h lowercase_marker_is_minutes [where n = 5 and AddDate = AddDate_UTC and now = 0]
    by (simp add: digits_of_small)
qed

text \<open>
  The claim C8 as written fails at \<^verbatim>\<open>n = 1\<close>: at the Unix epoch \<^verbatim>\<open>1m\<close> is one minute and
  \<^verbatim>\<open>1M\<close> the 31 days of January 1970.
\<close>

theorem marker_case_counterexample:
  "parseRelativeTime AddDate_UTC 0 ''1m'' = Inr 60000000000
   \<and> parseRelativeTime AddDate_UTC 0 ''1M'' = Inr 2678400000000000
   \<and> parseRelativeTime AddDate_UTC 0 ''1m'' \<noteq> parseRelativeTime AddDate_UTC 0 ''1M''"
proof -
  have a: "parseRelativeTime AddDate_UTC 0 ''1m'' = Inr 60000000000"
    by (simp add: parser_eval)
  have b: "parseRelativeTime AddDate_UTC 0 ''1M'' = Inr 2678400000000000"
    using month_token_aux [where k = 1 and AddDate = AddDate_UTC and now = 0]
    by (simp add: digits_of_small one_month_from_epoch Sub_def maxDuration_def minDuration_def)
  show ?thesis unfolding a b by simp
qed

section \<open>Whole days of a duration\<close>






section \<open>One streak transition\<close>








lemma transition_always:
  "LastCompletedAt (streak_transition Format now s) = now"
  "TotalCompleted (streak_transition Format now s) = TotalCompleted s + 1"
  "DailyCompletions (streak_transition Format now s) =
     Some ((daily_of s)(Format now \<mapsto> daily_count (daily_of s) (Format now) + 1))"
  by (simp_all add: streak_transition_def Let_def)




lemma transition_first:
  assumes "IsZero (LastCompletedAt s)"
  shows "CurrentStreak (streak_transition Format now s) = 1"
    and "MaxStreak (streak_transition Format now s) = (if MaxStreak s = 0 then 1 else MaxStreak s)"
  using assms by (simp_all add: streak_transition_def Let_def)

section \<open>Claims about the streak and the days until a deadline\<close>



lemma streak_invariant_step:
  assumes "0 \<le> CurrentStreak s" and "CurrentStreak s \<le> MaxStreak s"
    and "IsZero (LastCompletedAt s) \<or> 1 \<le> MaxStreak s"
  shows "0 \<le> CurrentStreak (streak_transition Format now s)"
    and "CurrentStreak (streak_transition Format now s) \<le> MaxStreak (streak_transition Format now s)"
    and "1 \<le> MaxStreak (streak_transition Format now s)"
  using assms by (auto simp add: streak_transition_def Let_def)

lemma streak_after_invariant:
  "0 \<le> CurrentStreak (streak_after Format nows)
   \<and> CurrentStreak (streak_after Format nows) \<le> MaxStreak (streak_after Format nows)
   \<and> (IsZero (LastCompletedAt (streak_after Format nows)) \<or> 1 \<le> MaxStreak (streak_after Format nows))"
proof (induction nows)
  case Nil
  show ?case by (simp add: zero_streak_def IsZero_def)
next
  case (Cons now earlier)
  then show ?case using streak_invariant_step [of "streak_after Format earlier" Format now] by simp
qed

lemma streak_after_total: "TotalCompleted (streak_after Format nows) = int (length nows)"
  by (induction nows) (simp_all add: zero_streak_def transition_always)

text \<open>
  C9. Every streak reached from the streak of an empty database by transitions at any
  instants has \<^verbatim>\<open>MaxStreak >= CurrentStreak >= 0\<close>; a transition adds exactly one to
  \<^verbatim>\<open>TotalCompleted\<close>, which therefore counts the transitions made and never decreases.
\<close>

theorem streak_reachable_invariant:
  "0 \<le> CurrentStreak (streak_after Format nows)
   \<and> CurrentStreak (streak_after Format nows) \<le> MaxStreak (streak_after Format nows)
   \<and> TotalCompleted (streak_transition Format now s) = TotalCompleted s + 1
   \<and> TotalCompleted (streak_after Format (now # nows)) = TotalCompleted (streak_after Format nows) + 1
   \<and> TotalCompleted (streak_after Format nows) = int (length nows)
   \<and> fst (GetStreak \<lparr>todoBucket = [], streakBucket = None\<rparr>) = streak_after Format []"
  using streak_after_invariant [of Format nows]
  by (simp add: transition_always streak_after_total GetStreak_def)



section \<open>Sorting\<close>

lemma set_insert_left: "set (insert_left lt x ys) = insert x (set ys)"
  by (induction ys) auto

lemma mset_insert_left: "mset (insert_left lt x ys) = add_mset x (mset ys)"
  by (induction ys) simp_all

lemma mset_foldl_insert_left:
  "mset (foldl (\<lambda>sorted x. insert_left lt x sorted) acc xs) = mset xs + mset acc"
  by (induction xs arbitrary: acc) (simp_all add: mset_insert_left)

lemma mset_sort_Slice: "mset (sort_Slice lt xs) = mset xs"
  by (simp add: sort_Slice_def mset_foldl_insert_left)

lemma set_sort_Slice: "set (sort_Slice lt xs) = set xs"
  using mset_sort_Slice [of lt xs] by (metis set_mset_mset)

lemma length_sort_Slice: "length (sort_Slice lt xs) = length xs"
  using mset_sort_Slice [of lt xs] by (metis size_mset)

lemma sorted_insert_left:
  assumes asym: "\<And>a b. a \<in> S \<Longrightarrow> b \<in> S \<Longrightarrow> lt a b \<Longrightarrow> \<not> lt b a"
    and negtrans: "\<And>a b c. a \<in> S \<Longrightarrow> b \<in> S \<Longrightarrow> c \<in> S \<Longrightarrow> \<not> lt a b \<Longrightarrow> \<not> lt b c \<Longrightarrow> \<not> lt a c"
    and "x \<in> S" and "set ys \<subseteq> S" and "sorted_wrt (\<lambda>a b. \<not> lt a b) ys"
  shows "sorted_wrt (\<lambda>a b. \<not> lt a b) (insert_left lt x ys)"
  using assms(3-)
proof (induction ys)
  case Nil
  then show ?case by simp
next
  case (Cons y ys)
  show ?case
  proof (cases "lt x y")
    case True
    have "\<not> lt y x" using asym [OF \<open>x \<in> S\<close> _ True] Cons.prems by simp
    with True Cons show ?thesis by (simp add: set_insert_left)
  next
    case False
    have "\<not> lt x z" if "z \<in> set ys" for z
      using negtrans [of x y z] False Cons.prems that by auto
    with False Cons.prems show ?thesis by simp
  qed
qed

lemma sorted_foldl_insert_left:
  assumes asym: "\<And>a b. a \<in> S \<Longrightarrow> b \<in> S \<Longrightarrow> lt a b \<Longrightarrow> \<not> lt b a"
    and negtrans: "\<And>a b c. a \<in> S \<Longrightarrow> b \<in> S \<Longrightarrow> c \<in> S \<Longrightarrow> \<not> lt a b \<Longrightarrow> \<not> lt b c \<Longrightarrow> \<not> lt a c"
    and "set xs \<subseteq> S" and "set acc \<subseteq> S" and "sorted_wrt (\<lambda>a b. \<not> lt a b) acc"
  shows "sorted_wrt (\<lambda>a b. \<not> lt a b) (foldl (\<lambda>sorted x. insert_left lt x sorted) acc xs)"
  using assms(3-)
proof (induction xs arbitrary: acc)
  case Nil
  then show ?case by simp
next
  case (Cons x xs)
  have "sorted_wrt (\<lambda>a b. \<not> lt a b) (insert_left lt x acc)"
  proof (rule sorted_insert_left [where S = S])
    show "\<not> lt b a" if "a \<in> S" "b \<in> S" "lt a b" for a b
      using asym that by blast
    show "\<not> lt a c" if "a \<in> S" "b \<in> S" "c \<in> S" "\<not> lt a b" "\<not> lt b c" for a b c
      using negtrans that by blast
  qed (use Cons.prems in simp_all)
  moreover have "set (insert_left lt x acc) \<subseteq> S"
    using Cons.prems by (simp add: set_insert_left)
  ultimately show ?case using Cons.IH [of "insert_left lt x acc"] Cons.prems by simp
qed

lemma sorted_sort_Slice:
  assumes "\<And>a b. a \<in> S \<Longrightarrow> b \<in> S \<Longrightarrow> lt a b \<Longrightarrow> \<not> lt b a"
    and "\<And>a b c. a \<in> S \<Longrightarrow> b \<in> S \<Longrightarrow> c \<in> S \<Longrightarrow> \<not> lt a b \<Longrightarrow> \<not> lt b c \<Longrightarrow> \<not> lt a c"
    and "set xs \<subseteq> S"
  shows "sorted_wrt (\<lambda>a b. \<not> lt b a) (sort_Slice lt xs)"
proof -
  have "sorted_wrt (\<lambda>a b. \<not> lt a b) (foldl (\<lambda>sorted x. insert_left lt x sorted) [] xs)"
  proof (rule sorted_foldl_insert_left [where S = S])
    show "\<not> lt b a" if "a \<in> S" "b \<in> S" "lt a b" for a b
      using assms(1) that by blast
    show "\<not> lt a c" if "a \<in> S" "b \<in> S" "c \<in> S" "\<not> lt a b" "\<not> lt b c" for a b c
      using assms(2) that by blast
  qed (use assms(3) in simp_all)
  then show ?thesis by (simp add: sort_Slice_def sorted_wrt_rev)
qed


section \<open>The two comparisons\<close>

lemma todo_less_asym: "todo_less a b \<Longrightarrow> \<not> todo_less b a"
  by (cases "Completed a"; cases "Completed b"; cases "Deadline a"; cases "Deadline b";
      simp add: todo_less_def Before_def After_def)

lemma todo_less_negtrans: "\<not> todo_less a b \<Longrightarrow> \<not> todo_less b c \<Longrightarrow> \<not> todo_less a c"
  by (cases "Completed a"; cases "Completed b"; cases "Completed c";
      cases "Deadline a"; cases "Deadline b"; cases "Deadline c";
      simp add: todo_less_def Before_def After_def)

lemma upcoming_less_asym: "upcoming_less a b \<Longrightarrow> \<not> upcoming_less b a"
  by (cases "Deadline a"; cases "Deadline b"; simp add: upcoming_less_def Before_def)

lemma upcoming_less_negtrans:
  "is_upcoming a \<Longrightarrow> is_upcoming b \<Longrightarrow> is_upcoming c \<Longrightarrow>
   \<not> upcoming_less a b \<Longrightarrow> \<not> upcoming_less b c \<Longrightarrow> \<not> upcoming_less a c"
  by (cases "Deadline a"; cases "Deadline b"; cases "Deadline c";
      simp add: upcoming_less_def is_upcoming_def Before_def split: if_splits)


lemma decode_all_decoded:
  "map snd bucket = map Decoded todos \<Longrightarrow> decode_all bucket = Inr todos"
proof (induction bucket arbitrary: todos)
  case Nil
  then show ?case by simp
next
  case (Cons kv bucket)
  then obtain t ts where "todos = t # ts" "snd kv = Decoded t" "map snd bucket = map Decoded ts"
    by (cases todos) auto
  with Cons.IH [of ts] show ?case by (cases kv) simp
qed

lemma todo_order_of_not_less:
  assumes "\<not> todo_less b a"
  shows "Completed a \<longrightarrow> Completed b"
    and "\<not> Completed a \<and> \<not> Completed b \<and> Deadline a = None \<longrightarrow> Deadline b = None"
    and "\<forall>da db. \<not> Completed a \<and> \<not> Completed b \<and> Deadline a = Some da \<and> Deadline b = Some db
           \<longrightarrow> da \<le> db"
    and "(\<not> Completed a \<and> \<not> Completed b \<and> Deadline a = None \<and> Deadline b = None)
           \<or> (Completed a \<and> Completed b) \<longrightarrow> CreatedAt b \<le> CreatedAt a"
  using assms
  by (cases "Completed a"; cases "Completed b"; cases "Deadline a"; cases "Deadline b";
      simp add: todo_less_def Before_def After_def)+

section \<open>Claims about the listings\<close>

text \<open>
  C3. The comparison of \<^verbatim>\<open>GetAllTodos\<close> is a strict weak order (asymmetric, and its
  negation is transitive). When every stored task decodes, \<^verbatim>\<open>GetAllTodos\<close> returns the
  stored tasks in an order in which no later task is less than an earlier one by it. So, for any two positions: a completed task is never before an incomplete one;
  among incomplete tasks one without a deadline is never before one with a deadline, and
  deadlines do not decrease; two incomplete tasks without deadlines, and two completed
  tasks, are in the order of creation, the most recent first.
\<close>

theorem GetAllTodos_sorted:
  assumes "map snd (todoBucket db) = map Decoded todos"
  shows "(\<forall>a b. todo_less a b \<longrightarrow> \<not> todo_less b a)
         \<and> (\<forall>a b c. \<not> todo_less a b \<and> \<not> todo_less b c \<longrightarrow> \<not> todo_less a c)
         \<and> (\<exists>ys. GetAllTodos db = Inr ys \<and> mset ys = mset todos
           \<and> (\<forall>i j. i < j \<and> j < length ys \<longrightarrow>
                 \<not> todo_less (ys ! j) (ys ! i)
                 \<and> (Completed (ys ! i) \<longrightarrow> Completed (ys ! j))
                 \<and> (\<not> Completed (ys ! i) \<and> \<not> Completed (ys ! j) \<and> Deadline (ys ! i) = None
                       \<longrightarrow> Deadline (ys ! j) = None)
                 \<and> (\<forall>di dj. \<not> Completed (ys ! i) \<and> \<not> Completed (ys ! j)
                       \<and> Deadline (ys ! i) = Some di \<and> Deadline (ys ! j) = Some dj \<longrightarrow> di \<le> dj)
                 \<and> ((\<not> Completed (ys ! i) \<and> \<not> Completed (ys ! j)
                        \<and> Deadline (ys ! i) = None \<and> Deadline (ys ! j) = None)
                      \<or> (Completed (ys ! i) \<and> Completed (ys ! j))
                       \<longrightarrow> CreatedAt (ys ! j) \<le> CreatedAt (ys ! i))))"
proof -
  let ?ys = "sort_Slice todo_less todos"
  have r: "GetAllTodos db = Inr ?ys"
    by (simp add: GetAllTodos_def decode_all_decoded [OF assms])
  have s: "sorted_wrt (\<lambda>a b. \<not> todo_less b a) ?ys"
  proof (rule sorted_sort_Slice [where S = UNIV])
    show "\<not> todo_less b a" if "todo_less a b" for a b using that by (rule todo_less_asym)
    show "\<not> todo_less a c" if "\<not> todo_less a b" "\<not> todo_less b c" for a b c
      using that by (rule todo_less_negtrans)
  qed simp
  have n: "\<not> todo_less (?ys ! j) (?ys ! i)" if "i < j" "j < length ?ys" for i j
    using s that by (simp add: sorted_wrt_iff_nth_less)
  have swo: "(\<forall>a b. todo_less a b \<longrightarrow> \<not> todo_less b a)
      \<and> (\<forall>a b c. \<not> todo_less a b \<and> \<not> todo_less b c \<longrightarrow> \<not> todo_less a c)"
  proof (intro conjI allI impI)
    show "\<not> todo_less b a" if "todo_less a b" for a b
      using that by (rule todo_less_asym)
    show "\<not> todo_less a c" if "\<not> todo_less a b \<and> \<not> todo_less b c" for a b c
      using todo_less_negtrans [of a b c] that by simp
  qed
  have main: "\<exists>ys. GetAllTodos db = Inr ys \<and> mset ys = mset todos
           \<and> (\<forall>i j. i < j \<and> j < length ys \<longrightarrow>
                 \<not> todo_less (ys ! j) (ys ! i)
                 \<and> (Completed (ys ! i) \<longrightarrow> Completed (ys ! j))
                 \<and> (\<not> Completed (ys ! i) \<and> \<not> Completed (ys ! j) \<and> Deadline (ys ! i) = None
                       \<longrightarrow> Deadline (ys ! j) = None)
                 \<and> (\<forall>di dj. \<not> Completed (ys ! i) \<and> \<not> Completed (ys ! j)
                       \<and> Deadline (ys ! i) = Some di \<and> Deadline (ys ! j) = Some dj \<longrightarrow> di \<le> dj)
                 \<and> ((\<not> Completed (ys ! i) \<and> \<not> Completed (ys ! j)
                        \<and> Deadline (ys ! i) = None \<and> Deadline (ys ! j) = None)
                      \<or> (Completed (ys ! i) \<and> Completed (ys ! j))
                       \<longrightarrow> CreatedAt (ys ! j) \<le> CreatedAt (ys ! i)))"
  proof (intro exI conjI allI impI)
    show "GetAllTodos db = Inr ?ys" by (rule r)
    show "mset ?ys = mset todos" by (rule mset_sort_Slice)
  next
    fix i j assume ij: "i < j \<and> j < length ?ys"
    then have nl: "\<not> todo_less (?ys ! j) (?ys ! i)" using n by simp
    show "\<not> todo_less (?ys ! j) (?ys ! i)" by (rule nl)
    show "Completed (?ys ! j)" if "Completed (?ys ! i)"
      using todo_order_of_not_less(1) [OF nl] that by simp
    show "Deadline (?ys ! j) = None"
      if "\<not> Completed (?ys ! i) \<and> \<not> Completed (?ys ! j) \<and> Deadline (?ys ! i) = None"
      using todo_order_of_not_less(2) [OF nl] that by simp
    show "di \<le> dj"
      if "\<not> Completed (?ys ! i) \<and> \<not> Completed (?ys ! j)
           \<and> Deadline (?ys ! i) = Some di \<and> Deadline (?ys ! j) = Some dj" for di dj
      using todo_order_of_not_less(3) [OF nl] that by simp
    show "CreatedAt (?ys ! j) \<le> CreatedAt (?ys ! i)"
      if "(\<not> Completed (?ys ! i) \<and> \<not> Completed (?ys ! j)
            \<and> Deadline (?ys ! i) = None \<and> Deadline (?ys ! j) = None)
          \<or> (Completed (?ys ! i) \<and> Completed (?ys ! j))"
      using todo_order_of_not_less(4) [OF nl] that by simp
  qed
  show ?thesis
    by (rule conjI [OF conjunct1 [OF swo] conjI [OF conjunct2 [OF swo] main]])
qed

theorem GetAllTodos_sorted_witness:
  "map snd (todoBucket
      \<lparr>todoBucket = [(''a'', Decoded (new_task ''a'' None False 1)),
                     (''b'', Decoded (new_task ''b'' (Some 100) False 0)),
                     (''c'', Decoded (new_task ''c'' None True 2))],
       streakBucket = None\<rparr>)
     = map Decoded [new_task ''a'' None False 1, new_task ''b'' (Some 100) False 0,
                    new_task ''c'' None True 2]
   \<and> GetAllTodos
      \<lparr>todoBucket = [(''a'', Decoded (new_task ''a'' None False 1)),
                     (''b'', Decoded (new_task ''b'' (Some 100) False 0)),
                     (''c'', Decoded (new_task ''c'' None True 2))],
       streakBucket = None\<rparr>
     = Inr [new_task ''b'' (Some 100) False 0, new_task ''a'' None False 1,
            new_task ''c'' None True 2]"
  using GetAllTodos_sorted [where db = "\<lparr>todoBucket = [(''a'', Decoded (new_task ''a'' None False 1)),
                     (''b'', Decoded (new_task ''b'' (Some 100) False 0)),
                     (''c'', Decoded (new_task ''c'' None True 2))],
       streakBucket = None\<rparr>"
      and todos = "[new_task ''a'' None False 1, new_task ''b'' (Some 100) False 0,
                    new_task ''c'' None True 2]"]
  by (simp add: GetAllTodos_def sort_Slice_def todo_less_def new_task_def Before_def After_def)

lemma upcoming_deadlines_ordered:
  assumes "is_upcoming a" and "is_upcoming b" and "\<not> upcoming_less b a"
  shows "\<exists>da db. Deadline a = Some da \<and> Deadline b = Some db \<and> da \<le> db"
  using assms
  by (cases "Deadline a"; cases "Deadline b";
      simp add: is_upcoming_def upcoming_less_def Before_def split: if_splits)

text \<open>
  C4. For a limit \<^verbatim>\<open>N >= 0\<close>, \<^verbatim>\<open>GetTopUpcomingTodos\<close> returns the first \<^verbatim>\<open>N\<close> elements of
  an arrangement of exactly the incomplete tasks with a deadline in which deadlines do
  not decrease: as many as there are when \<^verbatim>\<open>N\<close> is larger, never an error, and never a
  completed task or one without a deadline.
\<close>

theorem GetTopUpcomingTodos_top_n:
  assumes "0 \<le> N"
  shows "\<exists>sorted ys. GetTopUpcomingTodos todos N = Inr ys
           \<and> ys = take (nat N) sorted
           \<and> mset sorted = mset (filter (\<lambda>t. \<not> Completed t \<and> Deadline t \<noteq> None) todos)
           \<and> (\<forall>i j. i < j \<and> j < length sorted \<longrightarrow>
                 (\<exists>di dj. Deadline (sorted ! i) = Some di \<and> Deadline (sorted ! j) = Some dj
                          \<and> di \<le> dj))
           \<and> length ys = min (nat N) (length (filter (\<lambda>t. \<not> Completed t \<and> Deadline t \<noteq> None) todos))
           \<and> (\<forall>t \<in> set ys. \<not> Completed t \<and> Deadline t \<noteq> None \<and> t \<in> set todos)"
proof -
  let ?up = "filter is_upcoming todos"
  let ?sorted = "sort_Slice upcoming_less ?up"
  have f: "is_upcoming = (\<lambda>t. \<not> Completed t \<and> Deadline t \<noteq> None)"
    by (rule ext) (simp add: is_upcoming_def)
  have r: "GetTopUpcomingTodos todos N = Inr (take (nat N) ?sorted)"
    using assms by (simp add: GetTopUpcomingTodos_def Let_def)
  have m: "mset ?sorted = mset ?up" by (rule mset_sort_Slice)
  have st: "set ?sorted = set ?up" by (rule set_sort_Slice)
  have s: "sorted_wrt (\<lambda>a b. \<not> upcoming_less b a) ?sorted"
  proof (rule sorted_sort_Slice [where S = "Collect is_upcoming"])
    show "\<not> upcoming_less b a" if "upcoming_less a b" for a b
      using that by (rule upcoming_less_asym)
    show "\<not> upcoming_less a c"
      if "a \<in> Collect is_upcoming" "b \<in> Collect is_upcoming" "c \<in> Collect is_upcoming"
        "\<not> upcoming_less a b" "\<not> upcoming_less b c" for a b c
      using upcoming_less_negtrans [of a b c] that by simp
  qed auto
  have o: "\<exists>di dj. Deadline (?sorted ! i) = Some di \<and> Deadline (?sorted ! j) = Some dj \<and> di \<le> dj"
    if "i < j \<and> j < length ?sorted" for i j
  proof -
    have "\<not> upcoming_less (?sorted ! j) (?sorted ! i)"
      using s that by (simp add: sorted_wrt_iff_nth_less)
    moreover have "?sorted ! i \<in> set ?sorted" "?sorted ! j \<in> set ?sorted"
      using that by simp_all
    then have "is_upcoming (?sorted ! i)" "is_upcoming (?sorted ! j)"
      unfolding st by simp_all
    ultimately show ?thesis by (intro upcoming_deadlines_ordered)
  qed
  have l: "length (take (nat N) ?sorted) = min (nat N) (length ?up)"
    by (simp add: length_sort_Slice min.commute)
  have e: "\<not> Completed t \<and> Deadline t \<noteq> None \<and> t \<in> set todos"
    if "t \<in> set (take (nat N) ?sorted)" for t
  proof -
    from that have "t \<in> set ?sorted" by (rule in_set_takeD)
    then show ?thesis unfolding st by (simp add: f)
  qed
  show ?thesis
    using r m o l e unfolding f by blast
qed

theorem GetTopUpcomingTodos_top_n_witness:
  "(0::int) \<le> 2
   \<and> GetTopUpcomingTodos
        [new_task ''3'' (Some (12 * Hour)) False 0, new_task ''5'' (Some (5 * Hour)) True 0,
         new_task ''4'' None False 0, new_task ''2'' (Some (10 * Hour)) False 0,
         new_task ''1'' (Some (1 * Hour)) False 0] 2
      = Inr [new_task ''1'' (Some (1 * Hour)) False 0, new_task ''2'' (Some (10 * Hour)) False 0]"
  using GetTopUpcomingTodos_top_n [where N = 2 and todos =
        "[new_task ''3'' (Some (12 * Hour)) False 0, new_task ''5'' (Some (5 * Hour)) True 0,
         new_task ''4'' None False 0, new_task ''2'' (Some (10 * Hour)) False 0,
         new_task ''1'' (Some (1 * Hour)) False 0]"]
  by (simp add: GetTopUpcomingTodos_def sort_Slice_def upcoming_less_def is_upcoming_def
      new_task_def Before_def Hour_def)

section \<open>Updating a task and the streak\<close>

lemma UpdateTodo_written:
  "UpdateTodo Format now None snow swerr todo db =
     (None, todo\<lparr>UpdatedAt := now\<rparr>,
      db\<lparr>todoBucket := bucket_put (ID todo) (Decoded (todo\<lparr>UpdatedAt := now\<rparr>)) (todoBucket db)\<rparr>)"
  by (simp add: UpdateTodo_def Let_def)

lemma UpdateTodo_not_written:
  "UpdateTodo Format now (Some e) snow swerr todo db =
     (Some e, todo\<lparr>UpdatedAt := now\<rparr>,
      if (case fst (GetTodo db (ID todo)) of None \<Rightarrow> False | Some existingTodo \<Rightarrow> Completed existingTodo)
      then db
      else if Completed todo then snd (updateStreakOnCompletion Format snow swerr db)
      else db)"
  by (simp add: UpdateTodo_def Let_def)

text \<open>
  C1, on the program. \<^verbatim>\<open>UpdateTodo\<close> reaches \<^verbatim>\<open>updateStreakOnCompletion\<close> under the test
  \<^verbatim>\<open>err != nil\<close>. So an update that is written never touches the streak: marking the
  stored, incomplete task \<^verbatim>\<open>t1\<close> complete stores it as complete and leaves the streak of
  the database at zero. And when the same update fails to be written, the task stays
  incomplete in the database and the streak transition is applied.
\<close>

theorem UpdateTodo_streak_only_when_write_fails:
  "fst (UpdateTodo Format now None snow swerr todo db) = None
   \<and> streakBucket (snd (snd (UpdateTodo Format now None snow swerr todo db))) = streakBucket db
   \<and> GetTodo \<lparr>todoBucket = [(''t1'', Decoded (new_task ''t1'' None False 0))], streakBucket = None\<rparr> ''t1''
       = (Some (new_task ''t1'' None False 0), None)
   \<and> UpdateTodo Format (10 * Hour) None (10 * Hour) None
        (MarkComplete (10 * Hour) (new_task ''t1'' None False 0))
        \<lparr>todoBucket = [(''t1'', Decoded (new_task ''t1'' None False 0))], streakBucket = None\<rparr>
       = (None, MarkComplete (10 * Hour) (new_task ''t1'' None False 0),
          \<lparr>todoBucket = [(''t1'', Decoded (MarkComplete (10 * Hour) (new_task ''t1'' None False 0)))],
           streakBucket = None\<rparr>)
   \<and> TotalCompleted (fst (GetStreak (snd (snd
        (UpdateTodo Format (10 * Hour) None (10 * Hour) None
          (MarkComplete (10 * Hour) (new_task ''t1'' None False 0))
          \<lparr>todoBucket = [(''t1'', Decoded (new_task ''t1'' None False 0))], streakBucket = None\<rparr>))))) = 0
   \<and> fst (UpdateTodo Format (10 * Hour) (Some WriteFailed) (10 * Hour) None
        (MarkComplete (10 * Hour) (new_task ''t1'' None False 0))
        \<lparr>todoBucket = [(''t1'', Decoded (new_task ''t1'' None False 0))], streakBucket = None\<rparr>)
       = Some WriteFailed
   \<and> todoBucket (snd (snd (UpdateTodo Format (10 * Hour) (Some WriteFailed) (10 * Hour) None
        (MarkComplete (10 * Hour) (new_task ''t1'' None False 0))
        \<lparr>todoBucket = [(''t1'', Decoded (new_task ''t1'' None False 0))], streakBucket = None\<rparr>)))
       = [(''t1'', Decoded (new_task ''t1'' None False 0))]
   \<and> TotalCompleted (fst (GetStreak (snd (snd
        (UpdateTodo Format (10 * Hour) (Some WriteFailed) (10 * Hour) None
          (MarkComplete (10 * Hour) (new_task ''t1'' None False 0))
          \<lparr>todoBucket = [(''t1'', Decoded (new_task ''t1'' None False 0))], streakBucket = None\<rparr>))))) = 1"
  by (simp add: UpdateTodo_written UpdateTodo_not_written GetTodo_def GetStreak_def
      updateStreakOnCompletion_def UpdateStreak_def transition_always zero_streak_def
      new_task_def MarkComplete_def)


end
